theory Spec2Isabelle
  imports Complex_Main
begin

section \<open>Arrays, errors and the numerical library\<close>

text \<open>
  The program is numerical Python over numpy arrays. The embedding works in exact
  arithmetic: a float is a \<^typ>\<open>real\<close>, a complex float a \<^typ>\<open>complex\<close>.
  A two-dimensional array is the list of its rows and a three-dimensional array a list
  of matrices. numpy arrays are rectangular and the functions below are meant for
  arguments of the shapes the pipeline passes; the theorems state the shape conditions
  they rely on. An axis of length zero is not recorded by a list of rows, so an empty
  array is taken to have every axis empty.
\<close>

type_synonym 'a mat = "'a list list"
type_synonym 'a tens = "'a list list list"

text \<open>
  Exceptions are values. \<open>ValueError\<close>, \<open>IndexError\<close> and \<open>LinAlgError\<close> are
  the exceptions numpy raises; \<open>FitError\<close> stands for any exception of the
  statsmodels estimator. numpy does not raise on a division by zero: it warns and
  stores nan or inf. The embedding follows no such values: a computation that would
  store one ends with \<open>NonFiniteValues\<close>. The last two constructors are the
  errors named by the specification; no statement of the source raises them.
\<close>

datatype error =
    ValueError
  | IndexError
  | LinAlgError
  | FitError
  | NonFiniteValues
  | DegenerateResidualError nat
  | DegenerateNullDistributionError nat nat

text \<open>
  The library routines whose result is not a closed formula are parameters of the
  embedding: the statsmodels estimator \<^verbatim>\<open>VAR(data).fit(order).coefs\<close>, numpy's
  \<^verbatim>\<open>linalg.inv\<close> and \<^verbatim>\<open>linalg.det\<close>, and scipy's \<^verbatim>\<open>ttest_1samp\<close>. \<open>None\<close> from
  the estimator or from the inversion means that the routine raised. The t-test
  returns its statistic and its two-tailed p-value; either may be nan, written
  \<open>None\<close>.
\<close>

record libs =
  var_fit :: "real mat \<Rightarrow> nat \<Rightarrow> real tens option"
  linalg_inv :: "complex mat \<Rightarrow> complex mat option"
  linalg_det :: "complex mat \<Rightarrow> complex"
  ttest_1samp :: "real list \<Rightarrow> real \<Rightarrow> real option \<times> real option"

subsection \<open>Shapes and elementary array operations\<close>

definition ncols :: "'a mat \<Rightarrow> nat" where
  "ncols M = (case M of [] \<Rightarrow> 0 | r # _ \<Rightarrow> length r)"

definition column :: "'a mat \<Rightarrow> nat \<Rightarrow> 'a list" where
  "column M j = map (\<lambda>row. row ! j) M"

definition transpose_mat :: "'a mat \<Rightarrow> 'a mat" where
  "transpose_mat M = map (column M) [0..<ncols M]"

text \<open>The second and third entry of the shape of a three-dimensional array.\<close>

definition tens_rows :: "'a tens \<Rightarrow> nat" where
  "tens_rows a = (case a of [] \<Rightarrow> 0 | M # _ \<Rightarrow> length M)"

definition tens_cols :: "'a tens \<Rightarrow> nat" where
  "tens_cols a = (case a of [] \<Rightarrow> 0 | M # _ \<Rightarrow> ncols M)"

definition flatten :: "'a tens \<Rightarrow> 'a list" where
  "flatten a = concat (concat a)"

definition zeros_like :: "'a tens \<Rightarrow> complex tens" where
  "zeros_like a = map (map (map (\<lambda>_. 0))) a"

definition dot :: "real list \<Rightarrow> real list \<Rightarrow> real" where
  "dot u v = sum_list (map2 (*) u v)"


text \<open>\<^verbatim>\<open>np.linspace(start, stop, num)\<close>, with both end points.\<close>

definition linspace :: "real \<Rightarrow> real \<Rightarrow> nat \<Rightarrow> real list" where
  "linspace start stop num =
     (if num = 1 then [start]
      else map (\<lambda>i. start + real i * ((stop - start) / real (num - 1))) [0..<num])"

text \<open>
  \<^verbatim>\<open>np.fft.fftfreq(n)\<close>: the first \<open>(n - 1) div 2 + 1\<close> entries are \<open>k / n\<close>, the
  others \<open>(k - n) / n\<close>.
\<close>

definition fftfreq :: "nat \<Rightarrow> real list" where
  "fftfreq n =
     map (\<lambda>k. (if k < (n - 1) div 2 + 1 then real k else real k - real n) / real n) [0..<n]"

text \<open>The discrete Fourier transform \<^verbatim>\<open>np.fft.fft\<close> and its inverse \<^verbatim>\<open>np.fft.ifft\<close>.\<close>

definition fft :: "complex list \<Rightarrow> complex list" where
  "fft a = (let n = length a in
     map (\<lambda>k. \<Sum>m\<leftarrow>[0..<n]. a ! m * cis (- (2 * pi * real k * real m / real n))) [0..<n])"

definition ifft :: "complex list \<Rightarrow> complex list" where
  "ifft a = (let n = length a in
     map (\<lambda>m. (\<Sum>k\<leftarrow>[0..<n]. a ! k * cis (2 * pi * real k * real m / real n)) / of_nat n)
       [0..<n])"

text \<open>\<^verbatim>\<open>np.fft.fft2\<close> of a real matrix: the transform over both axes.\<close>

definition fft2 :: "real mat \<Rightarrow> complex mat" where
  "fft2 A = (let R = length A; C = ncols A in
     map (\<lambda>k. map (\<lambda>l.
        \<Sum>m\<leftarrow>[0..<R]. \<Sum>n\<leftarrow>[0..<C]. complex_of_real (A ! m ! n) *
           cis (- (2 * pi * (real k * real m / real R + real l * real n / real C))))
        [0..<C]) [0..<R])"

text \<open>
  \<^verbatim>\<open>np.var\<close> of a complex array: the mean of the squared distances to the mean.
  On an empty array numpy returns nan.
\<close>

definition np_var :: "complex list \<Rightarrow> error + real" where
  "np_var zs =
     (if zs = [] then Inl NonFiniteValues
      else let mean = sum_list zs / of_nat (length zs)
           in Inr ((\<Sum>z\<leftarrow>zs. (cmod (z - mean))\<^sup>2) / real (length zs)))"

text \<open>Running a fallible function over a list, stopping at the first error.\<close>

fun map_err :: "('a \<Rightarrow> error + 'b) \<Rightarrow> 'a list \<Rightarrow> error + 'b list" where
  "map_err f [] = Inr []"
| "map_err f (x # xs) =
     (case f x of
        Inl e \<Rightarrow> Inl e
      | Inr y \<Rightarrow> (case map_err f xs of Inl e \<Rightarrow> Inl e | Inr ys \<Rightarrow> Inr (y # ys)))"

section \<open>The connectivity pipeline: class \<open>mGrangerdDTF\<close>\<close>

subsection \<open>\<open>compute_A_n\<close>\<close>

text \<open>
  \<^verbatim>\<open>matrix_coefficients = np.stack(result.coefs, axis = 0)\<close> is the tensor of the
  estimator, one matrix for each lag, and \<^verbatim>\<open>matrix_coefficients[0, :, :]\<close> is its
  first matrix. On a tensor of no lags \<^verbatim>\<open>np.stack\<close> raises ValueError.
\<close>

definition compute_A_n :: "libs \<Rightarrow> real mat \<Rightarrow> nat \<Rightarrow> error + real mat" where
  "compute_A_n L data_in order_in =
     (case var_fit L data_in order_in of
        None \<Rightarrow> Inl FitError
      | Some matrix_coefficients \<Rightarrow>
          (case matrix_coefficients of [] \<Rightarrow> Inl ValueError | A0 # _ \<Rightarrow> Inr A0))"

subsection \<open>\<open>compute_E\<close>\<close>

text \<open>
  The two loops of \<open>compute_E\<close> with the array \<open>errors\<close> as state. \<open>A.shape[0]\<close>
  is the length of \<open>A\<close>, and \<open>coefficients\<close> the list of the entries of \<open>A\<close> along
  its first axis. What \<^verbatim>\<open>errors[r] -= np.dot(c, x)\<close> does depends on the rank of
  \<open>c\<close>, so the update of a row is the parameter \<open>sub_dot\<close>.
\<close>

definition compute_E_lag ::
  "('c \<Rightarrow> real list \<Rightarrow> real list \<Rightarrow> real list) \<Rightarrow> 'c list \<Rightarrow> real mat \<Rightarrow> nat \<Rightarrow>
     real mat \<Rightarrow> nat \<Rightarrow> real mat" where
  "compute_E_lag sub_dot coefficients observed_variables i errs lag =
     (let lag_order = length coefficients in
      errs[i - lag_order :=
        sub_dot (coefficients ! (lag - 1)) (observed_variables ! (i - lag))
          (errs ! (i - lag_order))])"

definition compute_E_row ::
  "('c \<Rightarrow> real list \<Rightarrow> real list \<Rightarrow> real list) \<Rightarrow> 'c list \<Rightarrow> real mat \<Rightarrow>
     real mat \<Rightarrow> nat \<Rightarrow> real mat" where
  "compute_E_row sub_dot coefficients observed_variables errs i =
     (let lag_order = length coefficients in
      foldl (compute_E_lag sub_dot coefficients observed_variables i)
        (errs[i - lag_order := observed_variables ! i]) [1..<lag_order + 1])"

definition compute_E_loop ::
  "('c \<Rightarrow> real list \<Rightarrow> real list \<Rightarrow> real list) \<Rightarrow> real mat \<Rightarrow> 'c list \<Rightarrow> real mat" where
  "compute_E_loop sub_dot data_in A =
     (let lag_order = length A;
          observed_variables = drop lag_order data_in;
          errs = map (map (\<lambda>_. 0)) observed_variables
      in foldl (compute_E_row sub_dot A observed_variables) errs
           [lag_order..<length observed_variables])"


text \<open>
  \<open>execute_sequence\<close> passes the matrix returned by \<open>compute_A_n\<close>: then the
  coefficients are its rows, \<open>np.dot\<close> of two vectors is a number, and numpy
  subtracts it from every entry of the row.
\<close>

definition compute_E_rank2 :: "real mat \<Rightarrow> real mat \<Rightarrow> real mat" where
  "compute_E_rank2 data_in A = compute_E_loop (\<lambda>c x row. map (\<lambda>e. e - dot c x) row) data_in A"

subsection \<open>\<open>compute_A_f\<close>, \<open>compute_H_f\<close>, \<open>compute_H_h\<close>\<close>

text \<open>
  \<^verbatim>\<open>exp_term\<close>: entry \<open>(r, c)\<close> is \<open>exp(-2j \<pi> f fftfreq(n)[r] c)\<close>, with \<open>n\<close> the
  number of rows of \<open>A_n\<close>.
\<close>

definition exp_term :: "real \<Rightarrow> nat \<Rightarrow> complex mat" where
  "exp_term f n =
     map (\<lambda>r. map (\<lambda>c. cis (- (2 * pi * f * (fftfreq n ! r) * real c))) [0..<n]) [0..<n]"

text \<open>\<^verbatim>\<open>np.eye(n)[i, j]\<close> over \<^verbatim>\<open>i, j = np.indices(A_n.shape)\<close>.\<close>

definition eye_indices :: "nat \<Rightarrow> nat \<Rightarrow> complex mat" where
  "eye_indices rows cols = map (\<lambda>i. map (\<lambda>j. if i = j then 1 else 0) [0..<cols]) [0..<rows]"

text \<open>
  \<^verbatim>\<open>A_fft * exp_term\<close>, the transform of the coefficients at the frequency \<open>f\<close>, and
  the slice \<^verbatim>\<open>a_ij_f\<close> that the loop stores after \<^verbatim>\<open>a_ij_f -= np.eye(...)[i, j]\<close>.
\<close>

definition ar_transform :: "real mat \<Rightarrow> real \<Rightarrow> complex mat" where
  "ar_transform A f = map2 (map2 (*)) (fft2 A) (exp_term f (length A))"

definition a_ij_f :: "real mat \<Rightarrow> real \<Rightarrow> complex mat" where
  "a_ij_f A f = map2 (map2 (-)) (ar_transform A f) (eye_indices (length A) (ncols A))"

text \<open>
  The loop over \<^verbatim>\<open>enumerate(np.linspace(...))\<close> stores one slice for each frequency
  of the grid, in order.
\<close>

definition compute_A_f :: "real mat \<Rightarrow> nat \<Rightarrow> real \<Rightarrow> real \<Rightarrow> complex tens" where
  "compute_A_f A num_freq lower_limit upper_limit =
     map (a_ij_f A) (linspace lower_limit upper_limit num_freq)"

text \<open>\<^verbatim>\<open>np.linalg.inv\<close> raises LinAlgError on a singular matrix.\<close>

definition inv_slice :: "libs \<Rightarrow> complex mat \<Rightarrow> error + complex mat" where
  "inv_slice L M = (case linalg_inv L M of None \<Rightarrow> Inl LinAlgError | Some Mi \<Rightarrow> Inr Mi)"

definition compute_H_f :: "libs \<Rightarrow> complex tens \<Rightarrow> error + complex tens" where
  "compute_H_f L a_ij_f_slices = map_err (inv_slice L) a_ij_f_slices"

definition compute_H_h :: "complex tens \<Rightarrow> complex tens" where
  "compute_H_h matrix = map (\<lambda>M. map (map cnj) (transpose_mat M)) matrix"

subsection \<open>\<open>compute_E_f\<close>, \<open>compute_V\<close>, \<open>compute_S_f\<close>\<close>

text \<open>
  \<^verbatim>\<open>fourier_matrix[j, :, i] = np.fft.fft(errors[:, i])\<close> for every frequency index
  \<open>j\<close> and channel \<open>i\<close>: the slices are equal, and column \<open>i\<close> of each holds the
  transform of column \<open>i\<close> of the residuals.
\<close>

definition compute_E_f :: "real mat \<Rightarrow> real \<Rightarrow> real \<Rightarrow> nat \<Rightarrow> complex tens" where
  "compute_E_f errs lower_limit upper_limit num_freq =
     (let transforms = map (\<lambda>i. fft (map complex_of_real (column errs i))) [0..<ncols errs]
      in replicate num_freq
           (map (\<lambda>t. map (\<lambda>i. transforms ! i ! t) [0..<ncols errs]) [0..<length errs]))"

text \<open>\<^verbatim>\<open>np.var(errors, axis=(1, 2))\<close>: one variance for each frequency slice.\<close>

definition compute_V :: "complex tens \<Rightarrow> error + real list" where
  "compute_V errs_f = map_err (\<lambda>slice. np_var (concat slice)) errs_f"

text \<open>
  \<^verbatim>\<open>H[i,:,:] * V[i] * H_h[i,:,:]\<close> is numpy's elementwise product of two matrices
  of one shape with a real number.
\<close>

definition slice_product :: "complex mat \<Rightarrow> real \<Rightarrow> complex mat \<Rightarrow> complex mat" where
  "slice_product Hi Vi Hhi = map2 (map2 (\<lambda>h hh. h * complex_of_real Vi * hh)) Hi Hhi"

text \<open>
  The loop \<^verbatim>\<open>for i in range(num_frequencies): S[i,:,:] = ...\<close>, run over the list of
  its indices with the array \<open>S\<close> as state. Reading \<open>V[i]\<close> or \<open>H_h[i]\<close> past the
  end raises IndexError.
\<close>

fun compute_S_f_loop ::
  "complex tens \<Rightarrow> complex tens \<Rightarrow> real list \<Rightarrow> nat list \<Rightarrow> complex tens \<Rightarrow> error + complex tens" where
  "compute_S_f_loop H H_h V [] S = Inr S"
| "compute_S_f_loop H H_h V (i # is) S =
     (if i < length V \<and> i < length H_h
      then compute_S_f_loop H H_h V is (S[i := slice_product (H ! i) (V ! i) (H_h ! i)])
      else Inl IndexError)"

definition compute_S_f :: "complex tens \<Rightarrow> complex tens \<Rightarrow> real list \<Rightarrow> error + complex tens" where
  "compute_S_f H H_h V = compute_S_f_loop H H_h V [0..<length H] (zeros_like H)"

subsection \<open>\<open>normalize_complex_arr\<close> and \<open>compute_partial_coherence\<close>\<close>

text \<open>
  \<^verbatim>\<open>a.real.min()\<close>, \<^verbatim>\<open>a.imag.min()\<close> and \<^verbatim>\<open>np.abs(a_oo).max()\<close> range over all entries
  of the array; on an empty array they raise ValueError. The division by a maximum of
  zero stores nan in every entry.
\<close>

definition offset_origin :: "complex list \<Rightarrow> complex \<Rightarrow> complex" where
  "offset_origin entries z =
     z - complex_of_real (Min (set (map Re entries)))
       - \<i> * complex_of_real (Min (set (map Im entries)))"

definition normalize_complex_arr :: "complex tens \<Rightarrow> error + complex tens" where
  "normalize_complex_arr a =
     (if flatten a = [] then Inl ValueError
      else let a_oo = map (map (map (offset_origin (flatten a)))) a;
               m = Max (set (map cmod (flatten a_oo)))
           in if m = 0 then Inl NonFiniteValues
              else Inr (map (map (map (\<lambda>z. z / complex_of_real m))) a_oo))"

text \<open>
  \<^verbatim>\<open>np.linalg.inv(M).T * np.linalg.det(M)\<close>: the transposed inverse, every entry
  multiplied by the determinant.
\<close>

definition cofactors :: "libs \<Rightarrow> complex mat \<Rightarrow> error + complex mat" where
  "cofactors L M =
     (case linalg_inv L M of
        None \<Rightarrow> Inl LinAlgError
      | Some Mi \<Rightarrow> Inr (map (map (\<lambda>z. z * linalg_det L M)) (transpose_mat Mi)))"

text \<open>
  \<^verbatim>\<open>theta[s, i, j] = cof[s, i, j] ** 2 / (cof[s, i, i] * cof[s, j, j])\<close>. A zero
  denominator stores nan or inf.
\<close>

definition theta_entry :: "complex mat \<Rightarrow> nat \<Rightarrow> nat \<Rightarrow> error + complex" where
  "theta_entry cof i j =
     (if cof ! i ! i * cof ! j ! j = 0 then Inl NonFiniteValues
      else Inr ((cof ! i ! j)\<^sup>2 / (cof ! i ! i * cof ! j ! j)))"

definition theta_slice :: "nat \<Rightarrow> nat \<Rightarrow> complex mat \<Rightarrow> error + complex mat" where
  "theta_slice rows cols cof =
     map_err (\<lambda>i. map_err (\<lambda>j. theta_entry cof i j) [0..<cols]) [0..<rows]"

definition compute_partial_coherence :: "libs \<Rightarrow> complex tens \<Rightarrow> error + real tens" where
  "compute_partial_coherence L matrix =
     (case map_err (cofactors L) matrix of
        Inl e \<Rightarrow> Inl e
      | Inr cof \<Rightarrow>
          (case map_err (theta_slice (tens_rows matrix) (tens_cols matrix)) cof of
             Inl e \<Rightarrow> Inl e
           | Inr theta \<Rightarrow>
               (case normalize_complex_arr theta of
                  Inl e \<Rightarrow> Inl e
                | Inr theta_normalized \<Rightarrow> Inr (map (map (map cmod)) theta_normalized))))"

subsection \<open>\<open>compute_dDTF\<close>, \<open>compute_abs_dDTF\<close>, \<open>in_out_degree\<close>\<close>

text \<open>
  The three nested loops of \<open>compute_dDTF\<close> with the matrix \<open>dDTF_ij\<close> as state;
  the innermost statement is \<^verbatim>\<open>dDTF_ij[i, j] += h_ij[f, i, j] * theta_ij[f, i, j]\<close>.
\<close>

definition dDTF_add :: "complex tens \<Rightarrow> real tens \<Rightarrow> nat \<Rightarrow> nat \<Rightarrow> complex mat \<Rightarrow> nat \<Rightarrow> complex mat" where
  "dDTF_add h theta i j D f =
     D[i := (D ! i)[j := D ! i ! j + h ! f ! i ! j * complex_of_real (theta ! f ! i ! j)]]"

definition compute_dDTF :: "complex tens \<Rightarrow> real tens \<Rightarrow> complex mat" where
  "compute_dDTF h theta =
     (let slices = length theta; rows = tens_rows theta; cols = tens_cols theta
      in foldl (\<lambda>D i. foldl (\<lambda>D j. foldl (dDTF_add h theta i j) D [0..<slices]) D [0..<cols])
           (replicate rows (replicate cols 0)) [0..<rows])"

definition compute_abs_dDTF :: "complex mat \<Rightarrow> real mat" where
  "compute_abs_dDTF matrix = map (map cmod) matrix"

definition in_out_degree :: "complex mat \<Rightarrow> real list \<times> real list \<times> real list" where
  "in_out_degree ddtf_matrix =
     (let a = map (map cmod) ddtf_matrix;
          in_degree = map sum_list a;
          out_degree = map (\<lambda>j. sum_list (column a j)) [0..<ncols a]
      in (in_degree, out_degree, map2 (+) in_degree out_degree))"

subsection \<open>The object and \<open>execute_sequence\<close>\<close>

text \<open>
  The attributes of an \<open>mGrangerdDTF\<close> object once its constructor has returned.
\<close>

record mGrangerdDTF =
  self_data :: "real mat"
  self_order :: nat
  self_num_frequencies :: nat
  self_lower_frequency_limit :: real
  self_upper_frequency_limit :: real
  self_A_n :: "real mat"
  self_errors :: "real mat"
  self_A_f :: "complex tens"
  self_H :: "complex tens"
  self_H_h :: "complex tens"
  self_errors_f :: "complex tens"
  self_V :: "real list"
  self_S_f :: "complex tens"
  self_theta_ij :: "real tens"
  self_dDTF_ij :: "complex mat"
  self_abs_dDTF :: "real mat"

definition execute_sequence ::
  "libs \<Rightarrow> real mat \<Rightarrow> nat \<Rightarrow> nat \<Rightarrow> real \<Rightarrow> real \<Rightarrow> error + mGrangerdDTF" where
  "execute_sequence L data_in order_in num_freq lower_limit upper_limit =
     (case compute_A_n L data_in order_in of Inl e \<Rightarrow> Inl e | Inr A_n \<Rightarrow>
      let errs = compute_E_rank2 data_in A_n;
          A_f = compute_A_f A_n num_freq lower_limit upper_limit
      in case compute_H_f L A_f of Inl e \<Rightarrow> Inl e | Inr H \<Rightarrow>
      let H_h = compute_H_h H;
          errs_f = compute_E_f errs lower_limit upper_limit num_freq
      in case compute_V errs_f of Inl e \<Rightarrow> Inl e | Inr V \<Rightarrow>
         case compute_S_f H H_h V of Inl e \<Rightarrow> Inl e | Inr S_f \<Rightarrow>
         case compute_partial_coherence L S_f of Inl e \<Rightarrow> Inl e | Inr theta \<Rightarrow>
      let dDTF = compute_dDTF H theta in
      Inr \<lparr> self_data = data_in, self_order = order_in, self_num_frequencies = num_freq,
            self_lower_frequency_limit = lower_limit, self_upper_frequency_limit = upper_limit,
            self_A_n = A_n, self_errors = errs, self_A_f = A_f, self_H = H, self_H_h = H_h,
            self_errors_f = errs_f, self_V = V, self_S_f = S_f, self_theta_ij = theta,
            self_dDTF_ij = dDTF, self_abs_dDTF = compute_abs_dDTF dDTF \<rparr>)"

text \<open>
  The constructor
  \<^verbatim>\<open>__init__(self, data, order=1, num_frequencies=10, lower_frequency_limit=0.01,
  upper_frequency_limit=0.1)\<close>: an argument the caller leaves out is \<open>None\<close> and
  takes its default; the constructor then runs \<open>execute_sequence\<close>.
\<close>

definition mGrangerdDTF_init ::
  "libs \<Rightarrow> real mat \<Rightarrow> nat option \<Rightarrow> nat option \<Rightarrow> real option \<Rightarrow> real option \<Rightarrow>
     error + mGrangerdDTF" where
  "mGrangerdDTF_init L data_in order_arg num_freq_arg lower_arg upper_arg =
     execute_sequence L data_in
       (case order_arg of None \<Rightarrow> 1 | Some p \<Rightarrow> p)
       (case num_freq_arg of None \<Rightarrow> 10 | Some n \<Rightarrow> n)
       (case lower_arg of None \<Rightarrow> 1 / 100 | Some x \<Rightarrow> x)
       (case upper_arg of None \<Rightarrow> 1 / 10 | Some x \<Rightarrow> x)"

section \<open>Surrogates and significance: class \<open>mGrangerStats2\<close>\<close>

subsection \<open>\<open>generate_surrogate\<close>\<close>

text \<open>
  \<^verbatim>\<open>np.random.rand(k)\<close> draws \<open>k\<close> numbers of \<open>[0, 1)\<close> from the generator. The
  generator is the sequence \<open>rng\<close> of the numbers it will deliver and the state is
  the position in it.
\<close>

definition rand :: "(nat \<Rightarrow> real) \<Rightarrow> nat \<Rightarrow> nat \<Rightarrow> real list \<times> nat" where
  "rand rng k pos = (map (\<lambda>i. rng (pos + i)) [0..<k], pos + k)"

definition random_phases :: "real list \<Rightarrow> complex list" where
  "random_phases us = map (\<lambda>u. cis (2 * pi * u)) us"

text \<open>\<^verbatim>\<open>a[idx] = b[idx] * phases\<close> for an index array \<open>idx\<close>.\<close>

definition assign_phases :: "nat list \<Rightarrow> complex list \<Rightarrow> complex list \<Rightarrow> complex list \<Rightarrow> complex list" where
  "assign_phases idx original_fft phases a =
     foldl (\<lambda>a k. a[idx ! k := original_fft ! (idx ! k) * phases ! k]) a [0..<length idx]"

text \<open>
  The body of the inner loop for one channel, from the transform \<open>original_fft\<close> to
  the spectrum \<open>surrogate_fft\<close>. The first draw of \<open>phases2\<close> is overwritten before
  it is used, but it advances the generator.
\<close>

definition surrogate_spectrum ::
  "(nat \<Rightarrow> real) \<Rightarrow> complex list \<Rightarrow> nat \<Rightarrow> complex list \<times> nat" where
  "surrogate_spectrum rng original_fft pos =
     (let n = length original_fft;
          half_len = (n - 1) div 2;
          idx1 = [1..<half_len + 1];
          idx2 = [half_len + 1..<n];
          (u1, pos1) = rand rng half_len pos;
          phases1 = random_phases u1;
          (u2, pos2) = rand rng half_len pos1;
          surrogate_fft = (map (\<lambda>_. 0) original_fft)[0 := original_fft ! 0];
          surrogate_fft = assign_phases idx1 original_fft phases1 surrogate_fft;
          (u3, pos3) = rand rng (length idx2) pos2;
          phases2 = random_phases u3;
          surrogate_fft = assign_phases idx2 original_fft phases2 surrogate_fft
      in (surrogate_fft, pos3))"

text \<open>
  The surrogate channel is the real part of the inverse transform of that spectrum.
  The transform of an empty channel raises ValueError.
\<close>

definition surrogate_channel ::
  "(nat \<Rightarrow> real) \<Rightarrow> real list \<Rightarrow> nat \<Rightarrow> error + real list \<times> nat" where
  "surrogate_channel rng channel pos =
     (if channel = [] then Inl ValueError
      else
        let original_fft = fft (map complex_of_real channel);
            (surrogate_fft, pos3) = surrogate_spectrum rng original_fft pos
        in Inr (map Re (ifft surrogate_fft), pos3))"

text \<open>
  The loop over the channels of one set threads the generator; the channels are
  stored as the columns \<^verbatim>\<open>surrogate_data[s, :, ic]\<close>.
\<close>

fun surrogate_channels ::
  "(nat \<Rightarrow> real) \<Rightarrow> real mat \<Rightarrow> nat list \<Rightarrow> nat \<Rightarrow> error + real mat \<times> nat" where
  "surrogate_channels rng original_data [] pos = Inr ([], pos)"
| "surrogate_channels rng original_data (ic # ics) pos =
     (case surrogate_channel rng (column original_data ic) pos of
        Inl e \<Rightarrow> Inl e
      | Inr (ch, pos1) \<Rightarrow>
          (case surrogate_channels rng original_data ics pos1 of
             Inl e \<Rightarrow> Inl e
           | Inr (chs, pos2) \<Rightarrow> Inr (ch # chs, pos2)))"

fun surrogate_sets ::
  "(nat \<Rightarrow> real) \<Rightarrow> real mat \<Rightarrow> nat \<Rightarrow> nat \<Rightarrow> error + real tens" where
  "surrogate_sets rng original_data 0 pos = Inr []"
| "surrogate_sets rng original_data (Suc k) pos =
     (case surrogate_channels rng original_data [0..<ncols original_data] pos of
        Inl e \<Rightarrow> Inl e
      | Inr (chs, pos1) \<Rightarrow>
          (case surrogate_sets rng original_data k pos1 of
             Inl e \<Rightarrow> Inl e
           | Inr sets \<Rightarrow>
               Inr (map (\<lambda>t. map (\<lambda>ch. ch ! t) chs) [0..<length original_data] # sets)))"

definition generate_surrogate :: "(nat \<Rightarrow> real) \<Rightarrow> real mat \<Rightarrow> nat \<Rightarrow> error + real tens" where
  "generate_surrogate rng original_data num_sets = surrogate_sets rng original_data num_sets 0"

subsection \<open>\<open>significance_testing\<close>\<close>

text \<open>
  A p-value is a float that may be nan: \<^verbatim>\<open>p_value / 2\<close> of nan is nan, and the
  comparison \<^verbatim>\<open>p_values < my_pvalue\<close> is false on nan.
\<close>

definition halve :: "real option \<Rightarrow> real option" where
  "halve p = map_option (\<lambda>x. x / 2) p"

definition float_less :: "real option \<Rightarrow> real \<Rightarrow> bool" where
  "float_less p a = (case p of None \<Rightarrow> False | Some x \<Rightarrow> x < a)"

text \<open>
  \<^verbatim>\<open>np.abs(mGrangerdDTF(data=d).dDTF_ij)\<close>, with the construction of the object
  followed by the read of its attribute \<open>dDTF_ij\<close> as the parameter \<open>pipeline\<close>.
\<close>

definition abs_dDTF_of :: "(real mat \<Rightarrow> error + complex mat) \<Rightarrow> real mat \<Rightarrow> error + real mat" where
  "abs_dDTF_of pipeline d =
     (case pipeline d of Inl e \<Rightarrow> Inl e | Inr dDTF \<Rightarrow> Inr (map (map cmod) dDTF))"

text \<open>
  The body of \<open>significance_testing\<close>, with the t-test and the pipeline as
  parameters. The original series is processed first, then each surrogate set in
  order; an exception of any run ends the call.
\<close>

definition significance_testing_with ::
  "(real list \<Rightarrow> real \<Rightarrow> real option \<times> real option) \<Rightarrow> (real mat \<Rightarrow> error + complex mat) \<Rightarrow>
     real mat \<Rightarrow> real tens \<Rightarrow> real \<Rightarrow> error + real mat" where
  "significance_testing_with ttest pipeline original_data surrogate_series my_pvalue =
     (let num_ICs = tens_cols surrogate_series in
      case abs_dDTF_of pipeline original_data of Inl e \<Rightarrow> Inl e | Inr dDTF_og \<Rightarrow>
      case map_err (abs_dDTF_of pipeline) surrogate_series of Inl e \<Rightarrow> Inl e | Inr su \<Rightarrow>
      let p_values =
            map (\<lambda>i. map (\<lambda>j.
                let original_value = dDTF_og ! i ! j;
                    surrogate_values = map (\<lambda>m. m ! i ! j) su;
                    (t_statistic, p_value) = ttest surrogate_values original_value
                in halve p_value) [0..<num_ICs]) [0..<num_ICs];
          significance_levels = map (map (\<lambda>p. float_less p my_pvalue)) p_values;
          significant_connections =
            map (\<lambda>i. map (\<lambda>j. if significance_levels ! i ! j then True else False)
              [0..<num_ICs]) [0..<num_ICs]
      in Inr (map2 (map2 (\<lambda>d b. d * (if b then 1 else 0))) dDTF_og significant_connections))"

text \<open>
  \<open>significance_testing\<close> itself: every object is built by
  \<^verbatim>\<open>mGrangerdDTF(data=...)\<close>, with no other argument.
\<close>

definition dDTF_of_data :: "libs \<Rightarrow> real mat \<Rightarrow> error + complex mat" where
  "dDTF_of_data L d =
     (case mGrangerdDTF_init L d None None None None of
        Inl e \<Rightarrow> Inl e
      | Inr obj \<Rightarrow> Inr (self_dDTF_ij obj))"

definition significance_testing :: "libs \<Rightarrow> real mat \<Rightarrow> real tens \<Rightarrow> real \<Rightarrow> error + real mat" where
  "significance_testing L original_data surrogate_series my_pvalue =
     significance_testing_with (ttest_1samp L) (dDTF_of_data L)
       original_data surrogate_series my_pvalue"

section \<open>Auxiliary notions for the statements\<close>


text \<open>
  The summand of \<open>compute_dDTF\<close> for the pair \<open>(i, j)\<close> at the frequency index \<open>f\<close>.
\<close>

definition dDTF_term :: "complex tens \<Rightarrow> real tens \<Rightarrow> nat \<Rightarrow> nat \<Rightarrow> nat \<Rightarrow> complex" where
  "dDTF_term h theta i j f = h ! f ! i ! j * complex_of_real (theta ! f ! i ! j)"

text \<open>
  The product of two complex matrices, to state what an inverse is.
\<close>

definition mat_mul :: "complex mat \<Rightarrow> complex mat \<Rightarrow> complex mat" where
  "mat_mul M N =
     map (\<lambda>row. map (\<lambda>j. \<Sum>k\<leftarrow>[0..<length N]. row ! k * N ! k ! j) [0..<ncols N]) M"

subsection \<open>An instance of the library and example data\<close>

text \<open>
  The inverse and the determinant of a matrix of one or two rows by their closed
  formulas. A larger matrix is outside this instance and is reported as not
  invertible.
\<close>

fun inv_small :: "complex mat \<Rightarrow> complex mat option" where
  "inv_small [[a]] = (if a = 0 then None else Some [[1 / a]])"
| "inv_small [[a, b], [c, d]] =
     (if a * d - b * c = 0 then None
      else Some [[d / (a * d - b * c), - b / (a * d - b * c)],
                 [- c / (a * d - b * c), a / (a * d - b * c)]])"
| "inv_small M = None"

fun det_small :: "complex mat \<Rightarrow> complex" where
  "det_small [[a]] = a"
| "det_small [[a, b], [c, d]] = a * d - b * c"
| "det_small M = 0"

text \<open>
  A library to run the embedding on examples: the estimator returns the given
  coefficient tensor whatever the data, inversion and determinant are the closed
  formulas above, and the t-test is the given function.
\<close>

definition run_libs :: "real tens \<Rightarrow> (real list \<Rightarrow> real \<Rightarrow> real option \<times> real option) \<Rightarrow> libs" where
  "run_libs coefs ttest =
     \<lparr> var_fit = (\<lambda>d p. Some coefs), linalg_inv = inv_small, linalg_det = det_small,
       ttest_1samp = ttest \<rparr>"

text \<open>
  A generator for an example: it delivers \<open>0\<close> at every draw but the fourth, which
  is \<open>1/2\<close>.
\<close>

definition example_rng :: "nat \<Rightarrow> real" where
  "example_rng k = (if k = 3 then 1 / 2 else 0)"

text \<open>
  A series of five samples of two channels, and two surrogate sets of that shape.
\<close>

definition example_original :: "real mat" where
  "example_original = [[1, 0], [0, 1], [1, 1], [2, 1], [1, - 1]]"

definition example_surrogates :: "real tens" where
  "example_surrogates =
     [[[0, 1], [1, 0], [1, 2], [0, 0], [2, 0]], [[1, 1], [0, 2], [1, 0], [2, 2], [0, 2]]]"

section \<open>Lemmas on lists\<close>

lemma map_zip_const:
  "length ys = length xs \<Longrightarrow> map (\<lambda>a. c) (zip xs ys) = map (\<lambda>_. c) xs"
  by (rule nth_equalityI) simp_all

lemma map2_map2_zero:
  "map length B = map length A \<Longrightarrow>
     map2 (map2 (\<lambda>h hh. 0)) A B = map (map (\<lambda>_. 0)) A"
proof (induction A arbitrary: B)
  case Nil
  then show ?case by simp
next
  case (Cons a A)
  then obtain b B' where B: "B = b # B'" by (cases B) auto
  with Cons.prems have "length b = length a" "map length B' = map length A" by auto
  with Cons.IH[of B'] B show ?case by (simp add: map_zip_const)
qed

lemma map_err_Inl:
  "map_err f xs = Inl e \<Longrightarrow> \<exists>x\<in>set xs. f x = Inl e"
  by (induction xs) (auto split: sum.splits)

lemma map_err_Inr:
  "map_err f xs = Inr ys \<Longrightarrow> length ys = length xs \<and> (\<forall>k<length xs. f (xs ! k) = Inr (ys ! k))"
proof (induction xs arbitrary: ys)
  case Nil
  then show ?case by simp
next
  case (Cons x xs)
  then show ?case
    by (auto split: sum.splits simp: nth_Cons split: nat.splits)
qed

lemma map_err_replicate:
  "f x = Inr y \<Longrightarrow> map_err f (replicate n x) = Inr (replicate n y)"
  by (induction n) simp_all

lemma upt_1: "[0..<1] = [0]"
  by (simp add: upt_rec)

lemma upt_2: "[0..<2] = [0, 1]"
  by (simp add: upt_rec numeral_eq_Suc)

lemma upt_3: "[0..<3] = [0, 1, 2]"
  by (simp add: upt_rec numeral_eq_Suc)

lemma upt_2_3: "[2..<3] = [2]" "[1..<3] = [1, 2]" "[Suc 0..<3] = [Suc 0, 2]"
  by (simp_all add: upt_rec numeral_eq_Suc)

lemma upt_4: "[0..<4] = [0, 1, 2, 3]"
  by (simp add: upt_rec numeral_eq_Suc)

lemma upt_small:
  "[0..<Suc 0] = [0]" "[Suc 0..<2] = [Suc 0]" "[2..<4] = [2, 3]" "[0..<2] = [0, Suc 0]"
  by (simp_all add: upt_rec numeral_eq_Suc)

lemma flatten_map3: "flatten (map (map (map g)) a) = map g (flatten a)"
  by (simp add: flatten_def map_concat comp_def)

lemma set_flatten_replicate:
  "0 < n \<Longrightarrow> set (flatten (replicate n M)) = set (concat M)"
  by (cases n) (auto simp: flatten_def)

lemma tens_shape_replicate:
  "0 < n \<Longrightarrow> tens_rows (replicate n M) = length M"
  "0 < n \<Longrightarrow> tens_cols (replicate n M) = ncols M"
  by (cases n; simp add: tens_rows_def tens_cols_def)+

lemma foldl_add_sum:
  "foldl (\<lambda>acc f. acc + g f) a [0..<n] = a + (\<Sum>f<n. g f)" for a :: complex
  by (induction n) (simp_all add: add.assoc)

lemma foldl_add_const:
  "foldl (\<lambda>acc f. acc + g f) a [0..<n] = a + of_nat n * c" if "\<And>f. f < n \<Longrightarrow> g f = c"
  for a c :: complex
  using that by (induction n) (simp_all add: algebra_simps)

lemma shape_nth:
  assumes "map length D' = map length D" and "k < length D"
  shows "length D' = length D" and "length (D' ! k) = length (D ! k)"
proof -
  show len: "length D' = length D" using assms(1) by (metis length_map)
  have "map length D' ! k = map length D ! k" using assms(1) by simp
  then show "length (D' ! k) = length (D ! k)" using assms(2) len by simp
qed

section \<open>Properties of \<open>compute_A_n\<close>\<close>

lemma compute_A_n_run_libs:
  "compute_A_n (run_libs (A0 # rest) tt) d p = Inr A0"
  by (simp add: compute_A_n_def run_libs_def)

text \<open>
  Claim C2, as the code has it. Whatever the order \<open>p\<close>, \<open>compute_A_n\<close> returns
  the coefficient matrix of the first lag alone, one matrix of channels \<open>\<times>\<close> channels,
  and the matrices of the lags \<open>2..p\<close> are dropped: the pipeline computes the same
  object when the estimator delivers the first lag only.
\<close>

theorem compute_A_n_first_lag:
  assumes "var_fit L d p = Some coefs" and "coefs \<noteq> []"
  shows "compute_A_n L d p = Inr (coefs ! 0) \<and>
         execute_sequence L d p nf lo hi =
           execute_sequence (L\<lparr>var_fit := \<lambda>d' p'. Some [coefs ! 0]\<rparr>) d p nf lo hi"
proof -
  from assms obtain A0 rest where c: "coefs = A0 # rest" by (cases coefs) auto
  have 1: "compute_A_n L d p = Inr (coefs ! 0)"
    using assms(1) c by (simp add: compute_A_n_def)
  have 2: "compute_A_n (L\<lparr>var_fit := \<lambda>d' p'. Some [coefs ! 0]\<rparr>) d p = Inr (coefs ! 0)"
    by (simp add: compute_A_n_def)
  have "inv_slice (L\<lparr>var_fit := g\<rparr>) = inv_slice L" for g
    by (rule ext) (simp add: inv_slice_def split: option.splits)
  then have 3: "compute_H_f (L\<lparr>var_fit := g\<rparr>) = compute_H_f L" for g
    by (intro ext) (simp add: compute_H_f_def)
  have "cofactors (L\<lparr>var_fit := g\<rparr>) = cofactors L" for g
    by (rule ext) (simp add: cofactors_def split: option.splits)
  then have 4: "compute_partial_coherence (L\<lparr>var_fit := g\<rparr>) = compute_partial_coherence L" for g
    by (intro ext) (simp add: compute_partial_coherence_def)
  show ?thesis
    using 1 2 by (simp add: execute_sequence_def 3 4 Let_def cong: sum.case_cong)
qed

theorem compute_A_n_first_lag_witness:
  "compute_A_n (run_libs [[[1, 2], [3, 4]], [[5, 6], [7, 8]]] (\<lambda>xs m. (None, None))) [[0, 0]] 2 =
     Inr [[1, 2], [3, 4]]"
  using compute_A_n_first_lag[of "run_libs [[[1, 2], [3, 4]], [[5, 6], [7, 8]]] (\<lambda>xs m. (None, None))"
      "[[0, 0]]" 2 "[[[1, 2], [3, 4]], [[5, 6], [7, 8]]]"]
  by (simp add: run_libs_def)

text \<open>
  With the order \<open>2\<close> and an estimator that delivers two lags, the result is the
  \<open>2 \<times> 2\<close> matrix of the first lag, not a tensor of two matrices; a different second
  lag gives the same result.
\<close>

theorem compute_A_n_first_lag_counterexample:
  "compute_A_n (run_libs [[[1, 2], [3, 4]], [[5, 6], [7, 8]]] (\<lambda>xs m. (None, None))) [[0, 0]] 2 =
     Inr [[1, 2], [3, 4]] \<and>
   compute_A_n (run_libs [[[1, 2], [3, 4]], [[0, 0], [0, 0]]] (\<lambda>xs m. (None, None))) [[0, 0]] 2 =
     Inr [[1, 2], [3, 4]]"
  by (simp add: compute_A_n_run_libs)

section \<open>Properties of \<open>compute_E\<close>\<close>







lemma compute_E_rank2_zero:
  "compute_E_rank2 [r0, r1, [p1, p2], [q1, q2], [a, b]] [[0, 0], [0, 0]] = [[a, b], [0, 0], [0, 0]]"
  by (simp add: compute_E_rank2_def compute_E_loop_def compute_E_row_def compute_E_lag_def
      Let_def dot_def upt_2_3)

section \<open>Properties of \<open>compute_A_f\<close> and \<open>compute_H_f\<close>\<close>

lemma inv_small_inverse:
  assumes "inv_small M = Some Mi"
  shows "mat_mul M Mi = eye_indices (length M) (length M)"
proof (cases M rule: inv_small.cases)
  case (1 a)
  with assms show ?thesis
    by (auto simp: mat_mul_def eye_indices_def ncols_def split: if_splits)
next
  case (2 a b c d)
  with assms have det: "a * d - b * c \<noteq> 0"
    and Mi: "Mi = [[d / (a * d - b * c), - b / (a * d - b * c)],
                 [- c / (a * d - b * c), a / (a * d - b * c)]]"
    by (auto split: if_splits)
  have e1: "a * d / (a * d - b * c) - b * c / (a * d - b * c) = 1"
    using det by (simp add: diff_divide_distrib[symmetric])
  have e2: "a * d / (a * d - b * c) - c * b / (a * d - b * c) = 1"
    using e1 by (simp add: mult.commute)
  show ?thesis
    using det e1 e2 by (simp add: 2 Mi mat_mul_def eye_indices_def ncols_def upt_2 mult.commute)
qed (use assms in auto)

lemma length_linspace: "length (linspace lo hi n) = n"
  by (simp add: linspace_def)

lemma fft2_shape: "length (fft2 A) = length A" "i < length A \<Longrightarrow> length (fft2 A ! i) = ncols A"
  by (simp_all add: fft2_def Let_def)

lemma exp_term_entry:
  "i < n \<Longrightarrow> j < n \<Longrightarrow> exp_term f n ! i ! j = cis (- (2 * pi * f * (fftfreq n ! i) * real j))"
  by (simp add: exp_term_def)

lemma ar_transform_entry:
  assumes "ncols A = length A" and "i < length A" and "j < length A"
  shows "ar_transform A f ! i ! j =
           fft2 A ! i ! j * cis (- (2 * pi * f * (fftfreq (length A) ! i) * real j))"
    and "length (ar_transform A f) = length A"
    and "length (ar_transform A f ! i) = length A"
  using assms by (simp_all add: ar_transform_def fft2_shape exp_term_def)

lemma a_ij_f_entry:
  assumes "ncols A = length A" and "i < length A" and "j < length A"
  shows "a_ij_f A f ! i ! j = ar_transform A f ! i ! j - (if i = j then 1 else 0)"
    and "length (a_ij_f A f) = length A"
  using assms ar_transform_entry(2,3)[OF assms, of f]
  by (simp_all add: a_ij_f_def eye_indices_def)

text \<open>
  Claim C3, as the code has it. For a square coefficient matrix and every frequency
  \<open>f\<close> of the grid, the slice \<open>A(f)\<close> is the transform of the coefficients at \<open>f\<close>
  minus the identity matrix, the negative of \<open>I - transform(A, f)\<close>; and \<open>H(f)\<close> is
  what the library's inversion returns on that slice, so that \<open>A(f) H(f) = I\<close> when the
  routine returns inverses.
\<close>

theorem compute_A_f_entry:
  assumes "ncols A = length A"
    and "idx < num_freq" and "i < length A" and "j < length A"
    and "\<And>M Mi. linalg_inv L M = Some Mi \<Longrightarrow> mat_mul M Mi = eye_indices (length M) (length M)"
    and "compute_H_f L (compute_A_f A num_freq lo hi) = Inr H"
  shows "compute_A_f A num_freq lo hi ! idx ! i ! j =
           ar_transform A (linspace lo hi num_freq ! idx) ! i ! j - (if i = j then 1 else 0) \<and>
         mat_mul (compute_A_f A num_freq lo hi ! idx) (H ! idx) =
           eye_indices (length A) (length A)"
proof -
  let ?Af = "compute_A_f A num_freq lo hi"
  have len: "length ?Af = num_freq" by (simp add: compute_A_f_def length_linspace)
  have sl: "?Af ! idx = a_ij_f A (linspace lo hi num_freq ! idx)"
    using assms(2) by (simp add: compute_A_f_def length_linspace)
  have 1: "?Af ! idx ! i ! j =
           ar_transform A (linspace lo hi num_freq ! idx) ! i ! j - (if i = j then 1 else 0)"
    unfolding sl by (rule a_ij_f_entry(1)[OF assms(1,3,4)])
  from map_err_Inr[OF assms(6)[unfolded compute_H_f_def]] assms(2) len
  have "inv_slice L (?Af ! idx) = Inr (H ! idx)" by simp
  then have "linalg_inv L (?Af ! idx) = Some (H ! idx)"
    by (simp add: inv_slice_def split: option.splits)
  from assms(5)[OF this] have "mat_mul (?Af ! idx) (H ! idx) =
      eye_indices (length (?Af ! idx)) (length (?Af ! idx))" .
  moreover have "length (?Af ! idx) = length A"
    unfolding sl by (rule a_ij_f_entry(2)[OF assms(1,3,4)])
  ultimately show ?thesis using 1 by simp
qed

lemma compute_A_f_example:
  "compute_A_f [[1 / 2]] (Suc 0) lo hi = [[[- 1 / 2]]]"
  by (simp add: compute_A_f_def linspace_def a_ij_f_def ar_transform_def fft2_def exp_term_def
      fftfreq_def eye_indices_def ncols_def Let_def)

theorem compute_A_f_entry_witness:
  "compute_A_f [[1 / 2]] 1 (1 / 100) (1 / 10) = [[[- 1 / 2]]] \<and>
   compute_H_f (run_libs [] (\<lambda>xs m. (None, None))) (compute_A_f [[1 / 2]] 1 (1 / 100) (1 / 10)) = Inr [[[- 2]]] \<and>
   mat_mul (compute_A_f [[1 / 2]] 1 (1 / 100) (1 / 10) ! 0) [[- 2]] = [[1]]"
proof -
  have run: "compute_H_f (run_libs [] (\<lambda>xs m. (None, None))) (compute_A_f [[1 / 2]] 1 (1 / 100) (1 / 10)) = Inr [[[- 2]]]"
    by (simp add: compute_A_f_example compute_H_f_def inv_slice_def run_libs_def)
  have contract: "\<And>M Mi. linalg_inv (run_libs [] (\<lambda>xs m. (None, None))) M = Some Mi \<Longrightarrow>
      mat_mul M Mi = eye_indices (length M) (length M)"
    by (simp add: run_libs_def inv_small_inverse)
  have "mat_mul (compute_A_f [[1 / 2]] 1 (1 / 100) (1 / 10) ! 0) ([[[- 2]]] ! 0) =
      eye_indices (length [[1 / 2 :: real]]) (length [[1 / 2 :: real]])"
    by (rule compute_A_f_entry[of "[[1 / 2]]" 0 1 0 0 "run_libs [] (\<lambda>xs m. (None, None))" "1 / 100" "1 / 10" "[[[- 2]]]",
      OF _ _ _ _ contract run, THEN conjunct2]) (simp_all add: ncols_def)
  then have "mat_mul (compute_A_f [[1 / 2]] 1 (1 / 100) (1 / 10) ! 0) [[- 2]] = [[1]]"
    by (simp add: eye_indices_def)
  with run show ?thesis by (simp add: compute_A_f_example)
qed

text \<open>
  For the coefficient matrix \<open>(1/2)\<close> the code stores \<open>A(f) = -1/2\<close>, while
  \<open>I - transform(A, f)\<close> is \<open>1/2\<close>.
\<close>

theorem compute_A_f_entry_counterexample:
  "compute_A_f [[1 / 2]] 1 (1 / 100) (1 / 10) = [[[- 1 / 2]]] \<and>
   map2 (map2 (-)) (eye_indices 1 1) (ar_transform [[1 / 2]] (1 / 100)) = [[1 / 2]]"
  by (simp add: compute_A_f_example)
     (simp add: ar_transform_def fft2_def exp_term_def fftfreq_def eye_indices_def ncols_def Let_def)

lemma a_ij_f_zero: "a_ij_f [[0, 0], [0, 0]] f = [[- 1, 0], [0, - 1]]"
  by (simp add: a_ij_f_def ar_transform_def fft2_def exp_term_def eye_indices_def ncols_def
      Let_def upt_2)

lemma compute_A_f_zero:
  "compute_A_f [[0, 0], [0, 0]] n lo hi = replicate n [[- 1, 0], [0, - 1]]"
  by (simp add: compute_A_f_def a_ij_f_zero[abs_def] map_replicate_const length_linspace)

lemma compute_H_f_minus_id:
  "compute_H_f (run_libs coefs tt) (replicate n [[- 1, 0], [0, - 1]]) =
     Inr (replicate n [[- 1, 0], [0, - 1]])"
  unfolding compute_H_f_def
  by (rule map_err_replicate) (simp add: inv_slice_def run_libs_def)

lemma compute_H_h_minus_id:
  "compute_H_h (replicate n [[- 1, 0], [0, - 1]]) = replicate n [[- 1, 0], [0, - 1]]"
  by (simp add: compute_H_h_def transpose_mat_def ncols_def column_def upt_2)

section \<open>Properties of \<open>compute_E_f\<close>, \<open>compute_V\<close> and \<open>compute_S_f\<close>\<close>

lemma fft_impulse_3: "fft [a, 0, 0] = [a, a, a]"
  by (simp add: fft_def Let_def upt_3)

lemma compute_E_f_zero:
  "compute_E_f [[a, b], [0, 0], [0, 0]] lo hi n =
     replicate n [[complex_of_real a, complex_of_real b], [complex_of_real a, complex_of_real b],
                  [complex_of_real a, complex_of_real b]]"
  by (simp add: compute_E_f_def Let_def ncols_def column_def fft_impulse_3 upt_2 upt_3)

lemma np_var_pair:
  assumes "(a - b)\<^sup>2 = 4"
  shows "np_var [complex_of_real a, complex_of_real b, complex_of_real a, complex_of_real b,
                 complex_of_real a, complex_of_real b] = Inr 1"
proof -
  let ?m = "complex_of_real ((a + b) / 2)"
  have mean: "(complex_of_real a + complex_of_real b + complex_of_real a + complex_of_real b +
      complex_of_real a + complex_of_real b) / 6 = ?m"
    by simp
  have da: "(cmod (complex_of_real a - ?m))\<^sup>2 = 1"
  proof -
    have "complex_of_real a - ?m = complex_of_real ((a - b) / 2)" by (simp add: field_simps)
    then have "(cmod (complex_of_real a - ?m))\<^sup>2 = ((a - b) / 2)\<^sup>2"
      by (simp only: norm_of_real power2_abs)
    also have "\<dots> = 1" using assms by (simp add: power_divide)
    finally show ?thesis .
  qed
  have db: "(cmod (complex_of_real b - ?m))\<^sup>2 = 1"
  proof -
    have "complex_of_real b - ?m = complex_of_real (- ((a - b) / 2))" by (simp add: field_simps)
    then have "(cmod (complex_of_real b - ?m))\<^sup>2 = (- ((a - b) / 2))\<^sup>2"
      by (simp only: norm_of_real power2_abs)
    also have "\<dots> = 1" using assms by (simp add: power_divide)
    finally show ?thesis .
  qed
  have m': "(3 * complex_of_real a + 3 * complex_of_real b) / 6 = ?m"
    by simp
  show ?thesis
    unfolding np_var_def Let_def
    by (simp add: m' da db del: of_real_add of_real_divide)
qed

lemma compute_V_pair:
  assumes "(a - b)\<^sup>2 = 4"
  shows "compute_V (replicate n
     [[complex_of_real a, complex_of_real b], [complex_of_real a, complex_of_real b],
      [complex_of_real a, complex_of_real b]]) = Inr (replicate n 1)"
  unfolding compute_V_def
  by (rule map_err_replicate) (simp add: np_var_pair[OF assms])

lemma compute_S_f_loop_result:
  assumes "\<forall>i\<in>set is. i < length V \<and> i < length H_h"
  shows "\<exists>S'. compute_S_f_loop H H_h V is S = Inr S' \<and> length S' = length S \<and>
           (\<forall>k<length S. S' ! k =
              (if k \<in> set is then slice_product (H ! k) (V ! k) (H_h ! k) else S ! k))"
  using assms
proof (induction "is" arbitrary: S)
  case Nil
  then show ?case by simp
next
  case (Cons i js)
  let ?S1 = "S[i := slice_product (H ! i) (V ! i) (H_h ! i)]"
  from Cons.prems have ok: "i < length V \<and> i < length H_h"
    and rest: "\<forall>k\<in>set js. k < length V \<and> k < length H_h" by simp_all
  from Cons.IH[OF rest, of ?S1] obtain S' where
    run: "compute_S_f_loop H H_h V js ?S1 = Inr S'" and
    len: "length S' = length ?S1" and
    nth: "\<forall>k<length ?S1. S' ! k =
            (if k \<in> set js then slice_product (H ! k) (V ! k) (H_h ! k) else ?S1 ! k)"
    by blast
  have "compute_S_f_loop H H_h V (i # js) S = Inr S'"
    using ok run by simp
  moreover have "length S' = length S" using len by simp
  moreover have "\<forall>k<length S. S' ! k =
      (if k \<in> set (i # js) then slice_product (H ! k) (V ! k) (H_h ! k) else S ! k)"
    using nth by (auto simp: nth_list_update)
  ultimately show ?case by blast
qed

lemma compute_S_f_slices:
  assumes "length H \<le> length V" and "length H \<le> length H_h"
  shows "\<exists>S. compute_S_f H H_h V = Inr S \<and> length S = length H \<and>
           (\<forall>k<length H. S ! k = slice_product (H ! k) (V ! k) (H_h ! k))"
proof -
  have "\<forall>i\<in>set [0..<length H]. i < length V \<and> i < length H_h"
    using assms by auto
  from compute_S_f_loop_result[OF this, of H "zeros_like H"]
  show ?thesis
    by (auto simp: compute_S_f_def zeros_like_def)
qed

lemma slice_product_zero:
  "slice_product Hi 0 Hhi = map2 (map2 (\<lambda>h hh. 0)) Hi Hhi"
  by (simp add: slice_product_def)

lemma compute_S_f_loop_length:
  "compute_S_f_loop H H_h V is S = Inr S' \<Longrightarrow> length S' = length S"
  by (induction "is" arbitrary: S) (auto split: if_splits)

lemma compute_S_f_length: "compute_S_f H H_h V = Inr S \<Longrightarrow> length S = length H"
  using compute_S_f_loop_length[of H H_h V "[0..<length H]" "zeros_like H" S]
  by (simp add: compute_S_f_def zeros_like_def)

lemma compute_S_f_id:
  "compute_S_f (replicate n [[- 1, 0], [0, - 1]]) (replicate n [[- 1, 0], [0, - 1]])
     (replicate n 1) = Inr (replicate n [[1, 0], [0, 1]])"
proof -
  let ?H = "replicate n [[- 1, 0], [0, - 1 :: complex]]"
  let ?V = "replicate n (1 :: real)"
  have "length ?H \<le> length ?V" "length ?H \<le> length ?H" by simp_all
  from compute_S_f_slices[OF this] obtain S where
    S: "compute_S_f ?H ?H ?V = Inr S" and len: "length S = length ?H"
    and nth: "\<forall>k<length ?H. S ! k = slice_product (?H ! k) (?V ! k) (?H ! k)" by blast
  have "S = replicate n [[1, 0], [0, 1]]"
    using len nth by (intro nth_equalityI) (simp_all add: slice_product_def)
  with S show ?thesis by simp
qed

text \<open>
  Claim C7, as the code has it. When the pooled variance \<open>V(f)\<close> is zero at a
  slice \<open>f\<close>, the builder raises nothing: it returns an array, and the slice
  \<open>S(f)\<close> is the zero matrix of the shape of \<open>H(f)\<close>.
\<close>

theorem compute_S_f_zero_variance:
  assumes "length H \<le> length V" and "length H \<le> length H_h"
    and "f < length H" and "map length (H_h ! f) = map length (H ! f)"
    and "V ! f = 0"
  shows "\<exists>S. compute_S_f H H_h V = Inr S \<and> S ! f = map (map (\<lambda>_. 0)) (H ! f)"
proof -
  from compute_S_f_slices[OF assms(1,2)] obtain S where
    run: "compute_S_f H H_h V = Inr S" and
    nth: "\<forall>k<length H. S ! k = slice_product (H ! k) (V ! k) (H_h ! k)"
    by blast
  have "S ! f = map2 (map2 (\<lambda>h hh. 0)) (H ! f) (H_h ! f)"
    using nth assms(3,5) by (simp add: slice_product_zero)
  then have "S ! f = map (map (\<lambda>_. 0)) (H ! f)"
    using map2_map2_zero[OF assms(4)] by simp
  with run show ?thesis by blast
qed

theorem compute_S_f_zero_variance_witness:
  "\<exists>S. compute_S_f [[[1, 2], [3, 4]]] [[[1, 3], [2, 4]]] [0] = Inr S \<and>
       S ! 0 = [[0, 0], [0, 0]]"
  using compute_S_f_zero_variance[of "[[[1, 2], [3, 4]]]" "[0]" "[[[1, 3], [2, 4]]]" 0]
  by simp

text \<open>
  With \<open>V = (0)\<close> the builder returns the zero matrix, not
  \<open>DegenerateResidualError\<close>.
\<close>

theorem compute_S_f_zero_variance_counterexample:
  "compute_S_f [[[1, 2], [3, 4]]] [[[1, 3], [2, 4]]] [0] = Inr [[[0, 0], [0, 0]]] \<and>
   compute_S_f [[[1, 2], [3, 4]]] [[[1, 3], [2, 4]]] [0] \<noteq> Inl (DegenerateResidualError 0)"
  by (simp add: compute_S_f_def zeros_like_def slice_product_def)

section \<open>Properties of \<open>compute_partial_coherence\<close>\<close>

lemma normalize_complex_arr_bound:
  assumes "normalize_complex_arr a = Inr b" and "z \<in> set (flatten b)"
  shows "cmod z \<le> 1"
proof -
  let ?oo = "map (map (map (offset_origin (flatten a)))) a"
  let ?m = "Max (set (map cmod (flatten ?oo)))"
  from assms(1) have ne: "flatten a \<noteq> []" and m0: "?m \<noteq> 0"
    and b: "b = map (map (map (\<lambda>z. z / complex_of_real ?m))) ?oo"
    by (auto simp: normalize_complex_arr_def Let_def split: if_splits)
  from assms(2) b obtain w where w: "w \<in> set (flatten ?oo)" and z: "z = w / complex_of_real ?m"
    by (auto simp: flatten_map3)
  have le: "cmod w \<le> ?m" using w by (intro Max_ge) auto
  have "0 \<le> cmod w" by simp
  with le m0 have pos: "0 < ?m" by linarith
  have "cmod z = cmod w / ?m" using pos by (simp add: z norm_divide)
  also have "\<dots> \<le> 1" using le pos by simp
  finally show ?thesis .
qed

lemma normalize_complex_arr_length: "normalize_complex_arr a = Inr b \<Longrightarrow> length b = length a"
  by (auto simp: normalize_complex_arr_def Let_def split: if_splits)

lemma compute_partial_coherence_length:
  assumes "compute_partial_coherence L S = Inr theta"
  shows "length theta = length S"
proof -
  from assms obtain cof raw b where
    c: "map_err (cofactors L) S = Inr cof" and
    r: "map_err (theta_slice (tens_rows S) (tens_cols S)) cof = Inr raw" and
    n: "normalize_complex_arr raw = Inr b" and t: "theta = map (map (map cmod)) b"
    by (auto simp: compute_partial_coherence_def split: sum.splits)
  from map_err_Inr[OF c] map_err_Inr[OF r] normalize_complex_arr_length[OF n] t
  show ?thesis by simp
qed

lemma cofactors_id: "cofactors (run_libs coefs tt) [[1, 0], [0, 1]] = Inr [[1, 0], [0, 1]]"
  by (simp add: cofactors_def run_libs_def transpose_mat_def ncols_def column_def upt_2)

lemma theta_slice_id: "theta_slice 2 2 [[1, 0], [0, 1]] = Inr [[1, 0], [0, 1]]"
  by (simp add: theta_slice_def theta_entry_def upt_2)

lemma normalize_id:
  assumes "0 < n"
  shows "normalize_complex_arr (replicate n [[1, 0], [0, 1]]) = Inr (replicate n [[1, 0], [0, 1]])"
proof -
  let ?a = "replicate n [[1, 0], [0, 1 :: complex]]"
  have s: "set (flatten ?a) = {0, 1}"
    using set_flatten_replicate[OF assms, of "[[1, 0], [0, 1 :: complex]]"] by auto
  have ne: "flatten ?a \<noteq> []" using s by auto
  have re: "Min (set (map Re (flatten ?a))) = 0" by (simp add: s)
  have im: "Min (set (map Im (flatten ?a))) = 0" by (simp add: s)
  have off: "offset_origin (flatten ?a) = (\<lambda>z. z)"
    by (rule ext) (simp add: offset_origin_def s)
  have mx: "Max (set (map cmod (flatten ?a))) = 1" by (simp add: s)
  have mx': "Max (cmod ` set (flatten ?a)) = 1" by (simp add: s)
  show ?thesis
    using ne by (simp add: normalize_complex_arr_def Let_def off mx')
qed

lemma compute_partial_coherence_id:
  assumes "0 < n"
  shows "compute_partial_coherence (run_libs coefs tt) (replicate n [[1, 0], [0, 1]]) =
     Inr (replicate n [[1, 0], [0, 1]])"
proof -
  have sh: "tens_rows (replicate n [[1, 0], [0, 1 :: complex]]) = 2"
    "tens_cols (replicate n [[1, 0], [0, 1 :: complex]]) = 2"
    using assms by (cases n; simp add: tens_rows_def tens_cols_def ncols_def)+
  have c: "map_err (cofactors (run_libs coefs tt)) (replicate n [[1, 0], [0, 1]]) =
      Inr (replicate n [[1, 0], [0, 1]])"
    by (rule map_err_replicate) (rule cofactors_id)
  have t: "map_err (theta_slice 2 2) (replicate n [[1, 0], [0, 1]]) =
      Inr (replicate n [[1, 0], [0, 1]])"
    by (rule map_err_replicate) (rule theta_slice_id)
  show ?thesis
    by (simp add: compute_partial_coherence_def sh normalize_id[OF assms] c t)
qed

text \<open>
  In exact arithmetic the normalisation bounds the result whenever it is finite:
  every slice is inverted, no denominator \<open>cof_ii * cof_jj\<close> is zero and the largest
  magnitude of the offset array is not zero. The rounding of floats is outside the
  embedding, so this says nothing about the last bit of a float result.
\<close>

lemma compute_partial_coherence_finite_range:
  assumes "compute_partial_coherence L matrix = Inr theta"
  shows "\<forall>x\<in>set (flatten theta). 0 \<le> x \<and> x \<le> 1"
proof -
  from assms obtain raw b where n: "normalize_complex_arr raw = Inr b"
    and t: "theta = map (map (map cmod)) b"
    by (auto simp: compute_partial_coherence_def split: sum.splits)
  show ?thesis
  proof
    fix x assume "x \<in> set (flatten theta)"
    then obtain z where z: "z \<in> set (flatten b)" and x: "x = cmod z"
      by (auto simp: t flatten_map3)
    from normalize_complex_arr_bound[OF n z] x show "0 \<le> x \<and> x \<le> 1" by simp
  qed
qed

text \<open>
  Claim C6 fails on the code. The comment of \<open>normalize_complex_arr\<close> gives the
  range \<open>[0, 1]\<close> as its purpose, but the division by the largest magnitude has no
  guard. For one channel the raw value is \<open>cof^2 / (cof * cof) = 1\<close> at every
  frequency: the offset array is zero, its largest magnitude is zero, and the division
  stores nan in every entry, so no entry of the result lies in \<open>[0, 1]\<close>. The same
  happens for the two-channel slice with the rows \<open>(1, 1)\<close> and \<open>(-1, 1)\<close>, whose four
  raw values are all \<open>1\<close>.
\<close>

theorem compute_partial_coherence_nan:
  "compute_partial_coherence (run_libs [] (\<lambda>xs m. (None, None))) [[[2]], [[3]]] =
     Inl NonFiniteValues \<and>
   compute_partial_coherence (run_libs [] (\<lambda>xs m. (None, None))) [[[1, 1], [- 1, 1]]] =
     Inl NonFiniteValues"
  by (simp add: compute_partial_coherence_def run_libs_def cofactors_def transpose_mat_def
      ncols_def column_def tens_rows_def tens_cols_def theta_slice_def theta_entry_def
      normalize_complex_arr_def flatten_def offset_origin_def Let_def upt_rec numeral_eq_Suc)

section \<open>Properties of \<open>compute_dDTF\<close> and of the pipeline\<close>

lemma dDTF_add_shape: "map length (dDTF_add h theta i j D f) = map length D"
proof (rule nth_equalityI)
  show "length (map length (dDTF_add h theta i j D f)) = length (map length D)"
    by (simp add: dDTF_add_def)
next
  fix k assume "k < length (map length (dDTF_add h theta i j D f))"
  then have "k < length D" by (simp add: dDTF_add_def)
  then show "map length (dDTF_add h theta i j D f) ! k = map length D ! k"
    by (cases "k = i") (simp_all add: dDTF_add_def)
qed

lemma dDTF_add_entry:
  assumes "k < length D" and "l < length (D ! k)"
  shows "dDTF_add h theta i j D f ! k ! l =
         (if k = i \<and> l = j then D ! k ! l + dDTF_term h theta i j f else D ! k ! l)"
proof (cases "k = i")
  case True
  then show ?thesis
    using assms by (cases "l = j") (simp_all add: dDTF_add_def dDTF_term_def)
next
  case False
  then show ?thesis by (simp add: dDTF_add_def)
qed

lemma dDTF_freq_loop:
  assumes "k < length D" and "l < length (D ! k)"
  shows "map length (foldl (dDTF_add h theta i j) D fs) = map length D \<and>
         foldl (dDTF_add h theta i j) D fs ! k ! l =
           (if k = i \<and> l = j
            then foldl (\<lambda>acc f. acc + dDTF_term h theta i j f) (D ! k ! l) fs
            else D ! k ! l)"
  using assms
proof (induction fs arbitrary: D)
  case Nil
  then show ?case by simp
next
  case (Cons f fs)
  let ?D1 = "dDTF_add h theta i j D f"
  have sh: "map length ?D1 = map length D" by (rule dDTF_add_shape)
  have k1: "k < length ?D1" and l1: "l < length (?D1 ! k)"
    using shape_nth[OF sh Cons.prems(1)] Cons.prems by simp_all
  note IH = Cons.IH[OF k1 l1] and en = dDTF_add_entry[OF Cons.prems, of h theta i j f]
  show ?case
  proof (cases "k = i \<and> l = j")
    case True
    then show ?thesis using IH en sh by simp
  next
    case False
    then show ?thesis using IH en sh by auto
  qed
qed

lemma dDTF_col_loop:
  assumes "k < length D" and "l < length (D ! k)" and "distinct js"
  shows "map length (foldl (\<lambda>D j. foldl (dDTF_add h theta i j) D fs) D js) = map length D \<and>
         foldl (\<lambda>D j. foldl (dDTF_add h theta i j) D fs) D js ! k ! l =
           (if k = i \<and> l \<in> set js
            then foldl (\<lambda>acc f. acc + dDTF_term h theta i l f) (D ! k ! l) fs
            else D ! k ! l)"
  using assms
proof (induction js arbitrary: D)
  case Nil
  then show ?case by simp
next
  case (Cons j js)
  let ?D1 = "foldl (dDTF_add h theta i j) D fs"
  from dDTF_freq_loop[OF Cons.prems(1,2), of h theta i j fs]
  have sh: "map length ?D1 = map length D"
    and en: "?D1 ! k ! l =
           (if k = i \<and> l = j
            then foldl (\<lambda>acc f. acc + dDTF_term h theta i j f) (D ! k ! l) fs
            else D ! k ! l)" by simp_all
  have k1: "k < length ?D1" and l1: "l < length (?D1 ! k)"
    using shape_nth[OF sh Cons.prems(1)] Cons.prems by simp_all
  have d: "distinct js" and nj: "j \<notin> set js" using Cons.prems(3) by simp_all
  from Cons.IH[OF k1 l1 d] sh en nj
  show ?case by auto
qed

lemma dDTF_row_loop:
  assumes "k < length D" and "l < length (D ! k)" and "distinct js" and "distinct is"
  shows "map length (foldl (\<lambda>D i. foldl (\<lambda>D j. foldl (dDTF_add h theta i j) D fs) D js) D is)
           = map length D \<and>
         foldl (\<lambda>D i. foldl (\<lambda>D j. foldl (dDTF_add h theta i j) D fs) D js) D is ! k ! l =
           (if k \<in> set is \<and> l \<in> set js
            then foldl (\<lambda>acc f. acc + dDTF_term h theta k l f) (D ! k ! l) fs
            else D ! k ! l)"
  using assms
proof (induction "is" arbitrary: D)
  case Nil
  then show ?case by simp
next
  case (Cons i "is")
  let ?D1 = "foldl (\<lambda>D j. foldl (dDTF_add h theta i j) D fs) D js"
  from dDTF_col_loop[OF Cons.prems(1,2,3), of h theta i fs]
  have sh: "map length ?D1 = map length D"
    and en: "?D1 ! k ! l =
           (if k = i \<and> l \<in> set js
            then foldl (\<lambda>acc f. acc + dDTF_term h theta i l f) (D ! k ! l) fs
            else D ! k ! l)" by simp_all
  have k1: "k < length ?D1" and l1: "l < length (?D1 ! k)"
    using shape_nth[OF sh Cons.prems(1)] Cons.prems by simp_all
  have d: "distinct is" and ni: "i \<notin> set is" using Cons.prems(4) by simp_all
  from Cons.IH[OF k1 l1 Cons.prems(3) d] sh en ni
  show ?case by auto
qed

lemma compute_dDTF_sum:
  assumes "i < tens_rows theta" and "j < tens_cols theta"
  shows "compute_dDTF h theta ! i ! j =
           foldl (\<lambda>acc f. acc + h ! f ! i ! j * complex_of_real (theta ! f ! i ! j)) 0
             [0..<length theta]"
    and "i < length (compute_dDTF h theta)" and "j < length (compute_dDTF h theta ! i)"
proof -
  let ?Z = "replicate (tens_rows theta) (replicate (tens_cols theta) (0::complex))"
  have k: "i < length ?Z" and l: "j < length (?Z ! i)" using assms by simp_all
  from dDTF_row_loop[OF k l, of "[0..<tens_cols theta]" "[0..<tens_rows theta]" h theta "[0..<length theta]"]
  have sh: "map length (compute_dDTF h theta) = map length ?Z"
    and en: "compute_dDTF h theta ! i ! j =
      foldl (\<lambda>acc f. acc + dDTF_term h theta i j f) 0 [0..<length theta]"
    using assms by (simp_all add: compute_dDTF_def Let_def)
  show "compute_dDTF h theta ! i ! j =
           foldl (\<lambda>acc f. acc + h ! f ! i ! j * complex_of_real (theta ! f ! i ! j)) 0
             [0..<length theta]"
    using en by (simp add: dDTF_term_def)
  show "i < length (compute_dDTF h theta)" and "j < length (compute_dDTF h theta ! i)"
    using shape_nth[OF sh k] l assms by simp_all
qed

lemma compute_dDTF_id:
  assumes "0 < n"
  shows "compute_dDTF (replicate n [[- 1, 0], [0, - 1]]) (replicate n [[1, 0], [0, 1]]) =
     [[- of_nat n, 0], [0, - of_nat n]]"
proof -
  let ?h = "replicate n [[- 1, 0], [0, - 1 :: complex]]"
  let ?t = "replicate n [[1, 0], [0, 1 :: real]]"
  let ?Z = "replicate 2 (replicate 2 (0 :: complex))"
  let ?D = "compute_dDTF ?h ?t"
  have sh: "tens_rows ?t = 2" "tens_cols ?t = 2"
    using assms by (cases n; simp add: tens_rows_def tens_cols_def ncols_def)+
  have D: "?D = foldl (\<lambda>D i. foldl (\<lambda>D j. foldl (dDTF_add ?h ?t i j) D [0..<n]) D [0..<2]) ?Z [0..<2]"
    by (simp add: compute_dDTF_def Let_def sh)
  have entry: "map length ?D = [2, 2] \<and> ?D ! k ! l =
      foldl (\<lambda>acc f. acc + dDTF_term ?h ?t k l f) 0 [0..<n]" if "k < 2" "l < 2" for k l
  proof -
    have k: "k < length ?Z" and l: "l < length (?Z ! k)" using that by simp_all
    have d: "distinct [0..<2::nat]" by simp
    have mem: "k \<in> set [0..<2]" "l \<in> set [0..<2]" using that by simp_all
    have z: "?Z ! k ! l = 0" using that by simp
    have m: "map length ?Z = [2, 2]" by (simp add: numeral_2_eq_2)
    note R = dDTF_row_loop[OF k l d d, of ?h ?t "[0..<n]", folded D]
    from R show ?thesis unfolding m z using mem by simp
  qed
  have tm: "dDTF_term ?h ?t k l f = (if k = l then - 1 else 0)" if "f < n" "k < 2" "l < 2" for k l f
    using that by (auto simp: dDTF_term_def less_2_cases_iff)
  have val: "?D ! k ! l = (if k = l then - of_nat n else 0)" if "k < 2" "l < 2" for k l
  proof -
    have "foldl (\<lambda>acc f. acc + dDTF_term ?h ?t k l f) 0 [0..<n] =
        0 + of_nat n * (if k = l then - 1 else 0)"
      by (rule foldl_add_const) (simp add: tm that)
    with entry[OF that] show ?thesis by simp
  qed
  have len: "map length ?D = [2, 2]" using entry[of 0 0] by simp
  then have l2: "length ?D = 2" by (metis length_map length_Cons list.size(3) numeral_2_eq_2)
  have r0: "length (?D ! 0) = 2" and r1: "length (?D ! 1) = 2"
    using len l2 by (metis nth_map nth_Cons_0 zero_less_numeral,
        metis nth_map nth_Cons_0 nth_Cons_Suc One_nat_def one_less_numeral_iff semiring_norm(76))
  show ?thesis
  proof (rule nth_equalityI)
    show "length ?D = length [[- of_nat n, 0], [0, - of_nat n :: complex]]" using l2 by simp
  next
    fix k assume "k < length ?D"
    then have k: "k < 2" using l2 by simp
    show "?D ! k = [[- of_nat n, 0], [0, - of_nat n]] ! k"
    proof (rule nth_equalityI)
      show "length (?D ! k) = length ([[- of_nat n, 0], [0, - of_nat n :: complex]] ! k)"
        using k r0 r1 by (auto simp: less_2_cases_iff)
    next
      fix l assume "l < length (?D ! k)"
      then have l: "l < 2" using k r0 r1 by (auto simp: less_2_cases_iff)
      show "?D ! k ! l = [[- of_nat n, 0], [0, - of_nat n]] ! k ! l"
        using val[OF k l] k l by (auto simp: less_2_cases_iff)
    qed
  qed
qed

lemma execute_sequence_stages:
  assumes "execute_sequence L d p nf lo hi = Inr obj"
  shows "self_A_f obj = compute_A_f (self_A_n obj) nf lo hi"
    and "compute_H_f L (self_A_f obj) = Inr (self_H obj)"
    and "compute_S_f (self_H obj) (self_H_h obj) (self_V obj) = Inr (self_S_f obj)"
    and "compute_partial_coherence L (self_S_f obj) = Inr (self_theta_ij obj)"
    and "self_dDTF_ij obj = compute_dDTF (self_H obj) (self_theta_ij obj)"
    and "self_abs_dDTF obj = compute_abs_dDTF (self_dDTF_ij obj)"
  using assms by (auto simp: execute_sequence_def Let_def split: sum.splits)

lemma execute_sequence_config:
  assumes "execute_sequence L d p nf lo hi = Inr obj"
  shows "self_data obj = d" and "self_order obj = p" and "self_num_frequencies obj = nf"
    and "self_lower_frequency_limit obj = lo" and "self_upper_frequency_limit obj = hi"
  using assms by (auto simp: execute_sequence_def Let_def split: sum.splits)

lemma execute_sequence_theta_length:
  assumes "execute_sequence L d p nf lo hi = Inr obj"
  shows "length (self_theta_ij obj) = nf" and "length (self_H obj) = nf"
proof -
  note st = execute_sequence_stages[OF assms]
  have "length (self_A_f obj) = nf" by (simp add: st(1) compute_A_f_def length_linspace)
  with map_err_Inr[OF st(2)[unfolded compute_H_f_def]]
  show h: "length (self_H obj) = nf" by simp
  from compute_partial_coherence_length[OF st(4)] compute_S_f_length[OF st(3)] h
  show "length (self_theta_ij obj) = nf" by simp
qed

text \<open>
  A run of the whole pipeline. When the estimator delivers zero coefficients, a series
  of five samples of two channels whose last sample \<open>(a, b)\<close> has \<open>(a - b)^2 = 4\<close>
  goes through every stage: \<open>A(f) = H(f) = -I\<close>, \<open>V(f) = 1\<close>, \<open>S(f) = \<theta>(f) = I\<close>
  and the dDTF matrix is \<open>-n I\<close> for \<open>n\<close> frequencies.
\<close>

lemma execute_sequence_example:
  assumes "(a - b)\<^sup>2 = 4" and "0 < n"
  shows "execute_sequence (run_libs [[[0, 0], [0, 0]]] tt) [r0, r1, [p1, p2], [q1, q2], [a, b]] p n lo hi =
    Inr \<lparr> self_data = [r0, r1, [p1, p2], [q1, q2], [a, b]], self_order = p,
          self_num_frequencies = n, self_lower_frequency_limit = lo,
          self_upper_frequency_limit = hi,
          self_A_n = [[0, 0], [0, 0]], self_errors = [[a, b], [0, 0], [0, 0]],
          self_A_f = replicate n [[- 1, 0], [0, - 1]],
          self_H = replicate n [[- 1, 0], [0, - 1]],
          self_H_h = replicate n [[- 1, 0], [0, - 1]],
          self_errors_f = replicate n
            [[complex_of_real a, complex_of_real b], [complex_of_real a, complex_of_real b],
             [complex_of_real a, complex_of_real b]],
          self_V = replicate n 1, self_S_f = replicate n [[1, 0], [0, 1]],
          self_theta_ij = replicate n [[1, 0], [0, 1]],
          self_dDTF_ij = [[- of_nat n, 0], [0, - of_nat n]],
          self_abs_dDTF = [[of_nat n, 0], [0, of_nat n]] \<rparr>"
  unfolding execute_sequence_def
  by (simp add: compute_A_n_run_libs compute_E_rank2_zero compute_A_f_zero compute_H_f_minus_id
      compute_H_h_minus_id compute_E_f_zero compute_V_pair[OF assms(1)] compute_S_f_id
      compute_partial_coherence_id[OF assms(2)] compute_dDTF_id[OF assms(2)]
      compute_abs_dDTF_def Let_def del: of_real_add)


text \<open>
  Claim C5. In every pipeline run, the entry \<open>(i, j)\<close> of the dDTF matrix is the sum
  of \<open>H_ij(f) * \<theta>_ij(f)\<close> over all frequency indices \<open>f\<close>: the loop adds the terms
  to zero from the left, in ascending order of \<open>f\<close>. The matrix \<open>abs_dDTF\<close> holds
  the absolute value of each entry.
\<close>

theorem pipeline_dDTF_is_sum:
  assumes "execute_sequence L d p nf lo hi = Inr obj"
    and "i < tens_rows (self_theta_ij obj)" and "j < tens_cols (self_theta_ij obj)"
  shows "self_dDTF_ij obj ! i ! j =
           foldl (\<lambda>acc f. acc + self_H obj ! f ! i ! j * complex_of_real (self_theta_ij obj ! f ! i ! j))
             0 [0..<nf] \<and>
         self_dDTF_ij obj ! i ! j =
           (\<Sum>f<nf. self_H obj ! f ! i ! j * complex_of_real (self_theta_ij obj ! f ! i ! j)) \<and>
         self_abs_dDTF obj ! i ! j = cmod (self_dDTF_ij obj ! i ! j)"
proof -
  note st = execute_sequence_stages[OF assms(1)]
  note len = execute_sequence_theta_length(1)[OF assms(1)]
  note S = compute_dDTF_sum[OF assms(2,3), of "self_H obj", folded st(5), unfolded len]
  have 1: "self_dDTF_ij obj ! i ! j =
           foldl (\<lambda>acc f. acc + self_H obj ! f ! i ! j * complex_of_real (self_theta_ij obj ! f ! i ! j))
             0 [0..<nf]" by (rule S(1))
  have 2: "self_dDTF_ij obj ! i ! j =
           (\<Sum>f<nf. self_H obj ! f ! i ! j * complex_of_real (self_theta_ij obj ! f ! i ! j))"
    unfolding 1 by (simp add: foldl_add_sum)
  have 3: "self_abs_dDTF obj ! i ! j = cmod (self_dDTF_ij obj ! i ! j)"
    using S(2,3) by (simp add: st(6) compute_abs_dDTF_def)
  from 1 2 3 show ?thesis by blast
qed

theorem pipeline_dDTF_is_sum_witness:
  "\<exists>obj. execute_sequence (run_libs [[[0, 0], [0, 0]]] (\<lambda>xs m. (None, None)))
           [[1, 0], [0, 1], [1, 1], [2, 1], [1, - 1]] 1 10 (1 / 100) (1 / 10) = Inr obj \<and>
         self_dDTF_ij obj ! 0 ! 0 = - 10 \<and>
         (\<Sum>f<10. self_H obj ! f ! 0 ! 0 * complex_of_real (self_theta_ij obj ! f ! 0 ! 0)) = - 10 \<and>
         self_abs_dDTF obj ! 0 ! 0 = 10"
proof -
  have a: "((1::real) - (- 1))\<^sup>2 = 4" and n: "0 < (10::nat)" by simp_all
  from execute_sequence_example[OF a n, of "\<lambda>xs m. (None, None)" "[1, 0]" "[0, 1]" 1 1 2 1 1
      "1 / 100" "1 / 10"]
  obtain obj where E: "execute_sequence (run_libs [[[0, 0], [0, 0]]] (\<lambda>xs m. (None, None)))
           [[1, 0], [0, 1], [1, 1], [2, 1], [1, - 1]] 1 10 (1 / 100) (1 / 10) = Inr obj"
    and th: "self_theta_ij obj = replicate 10 [[1, 0], [0, 1]]"
    and d: "self_dDTF_ij obj = [[- 10, 0], [0, - 10]]"
    by simp
  have "0 < tens_rows (self_theta_ij obj)" "0 < tens_cols (self_theta_ij obj)"
    by (simp_all add: th tens_shape_replicate ncols_def)
  from pipeline_dDTF_is_sum[OF E this] d
  have "(\<Sum>f<10. self_H obj ! f ! 0 ! 0 * complex_of_real (self_theta_ij obj ! f ! 0 ! 0)) = - 10"
    and "self_abs_dDTF obj ! 0 ! 0 = 10"
    by simp_all
  with E d show ?thesis by (intro exI[of _ obj]) simp
qed

section \<open>Properties of \<open>generate_surrogate\<close>\<close>

text \<open>
  Before the inverse transform, every bin of the surrogate spectrum has the magnitude
  of the bin of the original: the bin \<open>0\<close> is copied and every other bin is multiplied
  by a phase of modulus one.
\<close>

lemma assign_phases_upt:
  assumes "k < length a" and "hi = lo + N"
  shows "length (assign_phases [lo..<hi] X phases a) = length a \<and>
         assign_phases [lo..<hi] X phases a ! k =
           (if lo \<le> k \<and> k < hi then X ! k * phases ! (k - lo) else a ! k)"
proof -
  have eq: "assign_phases [lo..<lo + N] X phases a =
      foldl (\<lambda>a m. a[lo + m := X ! (lo + m) * phases ! m]) a [0..<N]"
    unfolding assign_phases_def by (rule foldl_cong) simp_all
  have "length (foldl (\<lambda>a m. a[lo + m := X ! (lo + m) * phases ! m]) a [0..<N]) = length a \<and>
      foldl (\<lambda>a m. a[lo + m := X ! (lo + m) * phases ! m]) a [0..<N] ! k =
        (if lo \<le> k \<and> k < lo + N then X ! k * phases ! (k - lo) else a ! k)"
  proof (induction N)
    case 0
    then show ?case by auto
  next
    case (Suc N)
    let ?F = "foldl (\<lambda>a m. a[lo + m := X ! (lo + m) * phases ! m]) a [0..<N]"
    from Suc have len: "length ?F = length a" and
      val: "?F ! k = (if lo \<le> k \<and> k < lo + N then X ! k * phases ! (k - lo) else a ! k)"
      by simp_all
    show ?case
    proof (cases "k = lo + N")
      case True
      then show ?thesis using assms(1) len by simp
    next
      case False
      then have "(lo \<le> k \<and> k < lo + Suc N) = (lo \<le> k \<and> k < lo + N)" by auto
      then show ?thesis using False len val by simp
    qed
  qed
  then show ?thesis by (simp add: eq assms(2))
qed

lemma cmod_random_phase:
  "m < length us \<Longrightarrow> cmod (z * random_phases us ! m) = cmod z"
  by (simp add: random_phases_def norm_mult)

lemma surrogate_spectrum_magnitudes:
  assumes "k < length X"
  shows "length (fst (surrogate_spectrum rng X pos)) = length X \<and>
         cmod (fst (surrogate_spectrum rng X pos) ! k) = cmod (X ! k)"
proof -
  define n where "n = length X"
  define h where "h = (n - 1) div 2"
  define u1 where "u1 = fst (rand rng h pos)"
  define u3 where "u3 = fst (rand rng (length [h + 1..<n]) (snd (rand rng h (snd (rand rng h pos)))))"
  define a0 where "a0 = (map (\<lambda>_. 0) X)[0 := X ! 0]"
  define a1 where "a1 = assign_phases [1..<h + 1] X (random_phases u1) a0"
  define a2 where "a2 = assign_phases [h + 1..<n] X (random_phases u3) a1"
  have kn: "k < n" using assms by (simp add: n_def)
  have hn: "h + 1 \<le> n" using kn by (cases n) (auto simp: h_def)
  have sp: "fst (surrogate_spectrum rng X pos) = a2"
    unfolding surrogate_spectrum_def Let_def split_beta fst_conv
      a2_def a1_def a0_def u3_def u1_def h_def n_def ..
  have lu1: "length u1 = h" by (simp add: u1_def rand_def)
  have lu3: "length u3 = n - (h + 1)" by (simp add: u3_def rand_def)
  have k0: "k < length a0" using assms by (simp add: a0_def)
  have A1: "length a1 = length a0 \<and>
      a1 ! k = (if 1 \<le> k \<and> k < h + 1 then X ! k * random_phases u1 ! (k - 1) else a0 ! k)"
    unfolding a1_def by (rule assign_phases_upt[OF k0, of _ _ h]) simp
  have k1: "k < length a1" using A1 k0 by simp
  have A2: "length a2 = length a1 \<and>
      a2 ! k = (if h + 1 \<le> k \<and> k < n then X ! k * random_phases u3 ! (k - (h + 1)) else a1 ! k)"
    unfolding a2_def by (rule assign_phases_upt[OF k1, of _ _ "n - (h + 1)"]) (use hn in simp)
  have len: "length a2 = length X" using A1 A2 by (simp add: a0_def)
  have val: "cmod (a2 ! k) = cmod (X ! k)"
  proof (cases "h + 1 \<le> k")
    case True
    then have "a2 ! k = X ! k * random_phases u3 ! (k - (h + 1))" using A2 kn by simp
    moreover have "k - (h + 1) < length u3" using True kn lu3 by simp
    ultimately show ?thesis by (simp only: cmod_random_phase)
  next
    case False
    then have e2: "a2 ! k = a1 ! k" using A2 by simp
    show ?thesis
    proof (cases "1 \<le> k")
      case True
      then have "a1 ! k = X ! k * random_phases u1 ! (k - 1)" using A1 False by simp
      moreover have "k - 1 < length u1" using True False lu1 by simp
      ultimately show ?thesis unfolding e2 by (simp only: cmod_random_phase)
    next
      case False
      then have "k = 0" by simp
      then show ?thesis using A1 assms unfolding e2 by (simp add: a0_def)
    qed
  qed
  from len val show ?thesis by (simp only: sp)
qed

lemma cis_3pi_half: "cis (pi * 3 / 2) = - \<i>"
proof -
  have "pi * 3 / 2 = pi + pi / 2" by simp
  then have "cis (pi * 3 / 2) = cis pi * cis (pi / 2)" by (simp only: cis_mult)
  then show ?thesis by simp
qed

lemma cis_3pi: "cis (3 * pi) = - 1"
proof -
  have "3 * pi = pi + 2 * pi" by simp
  then have "cis (3 * pi) = cis pi * cis (2 * pi)" by (simp only: cis_mult)
  then show ?thesis by simp
qed

lemma cis_pi_3: "cis (pi * 3) = - 1"
  using cis_3pi by (simp add: mult.commute)

lemma cis_9pi_half: "cis (pi * 9 / 2) = \<i>"
proof -
  have "pi * 9 / 2 = pi / 2 + 2 * pi + 2 * pi" by simp
  then have "cis (pi * 9 / 2) = cis (pi / 2) * cis (2 * pi) * cis (2 * pi)"
    by (simp only: cis_mult)
  then show ?thesis by simp
qed

lemma cis_pi_2: "cis (pi * 2) = 1"
  using cis_2pi by (simp add: mult.commute)

lemma cis_minus_values:
  "cis (- pi) = - 1" "cis (- (pi / 2)) = - \<i>" "cis (- (pi * 3 / 2)) = \<i>"
  "cis (- (pi * 2)) = 1" "cis (- (3 * pi)) = - 1" "cis (- (pi * 3)) = - 1"
  "cis (- (pi * 9 / 2)) = - \<i>"
  unfolding cis_cnj[symmetric] cis_3pi_half cis_3pi cis_pi_3 cis_9pi_half cis_pi_2
  by simp_all

lemma fft_4:
  "fft [a, b, c, d] =
     [a + b + c + d, a - \<i> * b - c + \<i> * d, a - b + c - d, a + \<i> * b - c - \<i> * d]"
  by (simp add: fft_def Let_def upt_4 cis_minus_values)

lemma ifft_4:
  "ifft [a, b, c, d] =
     [(a + b + c + d) / 4, (a + \<i> * b - c - \<i> * d) / 4, (a - b + c - d) / 4,
      (a - \<i> * b - c + \<i> * d) / 4]"
  by (simp add: ifft_def Let_def upt_4 cis_3pi_half cis_3pi cis_pi_3 cis_9pi_half cis_pi_2)

lemma fft_example: "fft (map complex_of_real [1, 0, 0, 0]) = [1, 1, 1, 1]"
  by (simp add: fft_4)

lemma surrogate_channel_example:
  "surrogate_channel example_rng [1, 0, 0, 0] 0 = Inr ([1 / 2, 0, 1 / 2, 0], 4)"
  unfolding surrogate_channel_def surrogate_spectrum_def fft_example Let_def rand_def
  by (simp add: upt_small random_phases_def assign_phases_def example_rng_def ifft_4)

lemma generate_surrogate_example:
  "generate_surrogate example_rng [[1], [0], [0], [0]] (Suc 0) =
     Inr [[[1 / 2], [0], [1 / 2], [0]]]"
proof -
  have "surrogate_channels example_rng [[1], [0], [0], [0]] [0] 0 =
      Inr ([[1 / 2, 0, 1 / 2, 0]], 4)"
    by (simp add: column_def surrogate_channel_example)
  then have "surrogate_sets example_rng [[1], [0], [0], [0]] (Suc 0) 0 =
      Inr [[[1 / 2], [0], [1 / 2], [0]]]"
    by (simp add: ncols_def upt_small upt_4)
  then show ?thesis by (simp add: generate_surrogate_def)
qed

text \<open>
  Claim C1 fails on the code. For the one-channel series \<open>(1, 0, 0, 0)\<close> and the draws
  \<open>0, 0, 0, 1/2\<close>, \<open>generate_surrogate\<close> returns the channel \<open>(1/2, 0, 1/2, 0)\<close>.
  The magnitudes of its transform are \<open>(1, 0, 1, 0)\<close>; those of the transform of the
  original channel are \<open>(1, 1, 1, 1)\<close>. The two halves of the spectrum get independent
  phases, the spectrum is no longer conjugate-symmetric, and taking the real part of
  its inverse transform changes the magnitudes.
\<close>

theorem generate_surrogate_spectrum_changed:
  "generate_surrogate example_rng [[1], [0], [0], [0]] 1 = Inr [[[1 / 2], [0], [1 / 2], [0]]] \<and>
   map cmod (fft (map complex_of_real (column [[1 / 2], [0], [1 / 2], [0]] 0))) = [1, 0, 1, 0] \<and>
   map cmod (fft (map complex_of_real (column [[1], [0], [0], [0]] 0))) = [1, 1, 1, 1]"
  by (simp add: generate_surrogate_example column_def fft_4)

section \<open>Properties of \<open>significance_testing\<close>\<close>









text \<open>
  Claim C10. \<open>significance_testing\<close> runs the pipeline of the original series
  and of every surrogate set with order \<open>1\<close>, \<open>10\<close> frequencies and the band
  \<open>[0.01, 0.1]\<close>: its result is a function of the library, the two series and the
  significance level alone, and every object it constructs holds that configuration.
\<close>

theorem significance_testing_default_configuration:
  "significance_testing L original_data surrogate_series my_pvalue =
     significance_testing_with (ttest_1samp L)
       (\<lambda>d. case execute_sequence L d 1 10 (1 / 100) (1 / 10) of
               Inl e \<Rightarrow> Inl e
             | Inr obj \<Rightarrow> Inr (self_dDTF_ij obj))
       original_data surrogate_series my_pvalue \<and>
   (\<forall>d obj. mGrangerdDTF_init L d None None None None = Inr obj \<longrightarrow>
      self_data obj = d \<and> self_order obj = 1 \<and> self_num_frequencies obj = 10 \<and>
      self_lower_frequency_limit obj = 1 / 100 \<and> self_upper_frequency_limit obj = 1 / 10)"
proof -
  have "dDTF_of_data L = (\<lambda>d. case execute_sequence L d 1 10 (1 / 100) (1 / 10) of
               Inl e \<Rightarrow> Inl e
             | Inr obj \<Rightarrow> Inr (self_dDTF_ij obj))"
    by (rule ext) (simp add: dDTF_of_data_def mGrangerdDTF_init_def)
  then show ?thesis
    by (auto simp: significance_testing_def mGrangerdDTF_init_def dest: execute_sequence_config)
qed

theorem significance_testing_default_configuration_witness:
  "\<exists>obj. mGrangerdDTF_init (run_libs [[[0, 0], [0, 0]]] (\<lambda>xs m. (None, None)))
           example_original None None None None = Inr obj \<and>
         self_order obj = 1 \<and> self_num_frequencies obj = 10 \<and>
         self_lower_frequency_limit obj = 1 / 100 \<and> self_upper_frequency_limit obj = 1 / 10"
proof -
  have a: "((1::real) - (- 1))\<^sup>2 = 4" and n: "0 < (10::nat)" by simp_all
  from execute_sequence_example[OF a n, of "\<lambda>xs m. (None, None)" "[1, 0]" "[0, 1]" 1 1 2 1 1
      "1 / 100" "1 / 10"]
  obtain obj where "mGrangerdDTF_init (run_libs [[[0, 0], [0, 0]]] (\<lambda>xs m. (None, None)))
           example_original None None None None = Inr obj"
    by (simp add: mGrangerdDTF_init_def example_original_def)
  with significance_testing_default_configuration[of
      "run_libs [[[0, 0], [0, 0]]] (\<lambda>xs m. (None, None))" example_original example_surrogates "1 / 20"]
  show ?thesis by blast
qed

end
